theory Spec2Isabelle
  imports Main "HOL-Library.AList"
begin

section \<open>Python values used by the monitor\<close>

text \<open>
  A Python \<open>dict\<close> keeps its keys in insertion order; assigning to a key that is already
  present keeps the key's position and replaces the value, assigning to a new key appends
  it. An association list with \<open>AList.update\<close> behaves the same way, so iterating over
  \<open>d.items()\<close> is iterating over the list.
\<close>

definition dict_get :: "('k \<times> 'v) list \<Rightarrow> 'k \<Rightarrow> 'v \<Rightarrow> 'v" where
  "dict_get d k dflt = (case map_of d k of None \<Rightarrow> dflt | Some v \<Rightarrow> v)"

definition dict_set :: "('k \<times> 'v) list \<Rightarrow> 'k \<Rightarrow> 'v \<Rightarrow> ('k \<times> 'v) list" where
  "dict_set d k v = AList.update k v d"

definition dict_keys :: "('k \<times> 'v) list \<Rightarrow> 'k list" where
  "dict_keys d = map fst d"

text \<open>
  A Python \<open>str\<close> is modelled by the bytes of its UTF-8 encoding, which determine it.
  \<open>str.lower()\<close> belongs to the language, not to the program, and its table of case
  mappings is not in the repository: every function below that calls it takes it as its
  first argument \<open>lower\<close>, and every statement about these functions holds for whatever
  \<open>lower\<close> is, so for \<open>str.lower\<close> itself.
\<close>

type_synonym lowering = "string \<Rightarrow> string"

text \<open>
  What \<open>response.json()\<close> can return: any JSON value. A JSON object is kept as its list
  of members in the order of the text; a number written with a fraction or an exponent is
  kept as its mantissa and decimal exponent.
\<close>

datatype json =
    JNull
  | JBool bool
  | JInt int
  | JFloat int int
  | JString string
  | JArray "json list"
  | JObject "(string \<times> json) list"

text \<open>
  An item record of the API: a JSON object whose keys \<open>name\<close> and \<open>quantity\<close> may be
  missing (\<open>item.get('name', '')\<close>, \<open>item.get('quantity', 0)\<close>); every other key is
  ignored by the program. The detector and the display read a snapshot as the dict from
  category to its item records.
\<close>

record item =
  name :: "string option"
  quantity :: "int option"

type_synonym snapshot = "(string \<times> item list) list"





text \<open>
  The exceptions, by the classes that the \<open>except\<close> clauses of \<open>get_all_items_data\<close>
  test: \<open>requests.exceptions.RequestException\<close>, \<open>json.JSONDecodeError\<close>, an exception of
  both classes (\<open>requests.exceptions.JSONDecodeError\<close>, which \<open>response.json()\<close> raises
  from requests 2.27 on), and an \<open>Exception\<close> of neither class.
\<close>

datatype exn = RequestException | RequestsJSONDecodeError | JSONDecodeError | OtherException



text \<open>
  An HTTP response: its status code and what \<open>response.json()\<close> does with its body,
  which is to return the decoded value, or to raise when the body is not JSON. Which
  exception it raises depends on the installed library, so it is part of the response.
\<close>

record response =
  status_code :: nat
  response_json :: "exn + json"

section \<open>The monitor and its surroundings\<close>

text \<open>The attributes of \<open>GAGItemsMonitor\<close> that the functions below read or write.\<close>

record monitor =
  base_url :: string
  watchlist :: "string list"
  discord_webhook :: "string option"
  previous_stock :: "(string \<times> int) list"
  categories :: "string list"

text \<open>
  \<open>__init__\<close>, given what \<open>load_watchlist\<close> and \<open>load_discord_webhook\<close> returned.
\<close>

definition init :: "string list \<Rightarrow> string option \<Rightarrow> monitor" where
  "init wl hook_url =
     \<lparr> base_url = ''https://gagapi.onrender.com'',
       watchlist = wl,
       discord_webhook = hook_url,
       previous_stock = [],
       categories = [''seeds'', ''gear'', ''eggs'', ''cosmetics'', ''eventshop''] \<rparr>"

text \<open>
  What the program prints, one constructor for each \<open>print\<close> of the modelled functions
  (the decoration of the text is left out, the values shown are kept).
\<close>

datatype line =
    Alert string int string
  | NotificationSent string string
  | NotificationFailed nat
  | NotificationError exn
  | Fetching string
  | FetchHttpError string nat
  | FetchNetworkError string exn
  | FetchJsonError string exn
  | CategoryHeader string nat
  | ItemLine bool string int
  | InStock
  | OutOfStock
  | TotalItems nat
  | WatchedItemsFound "string list"
  | NoWatchedItems

text \<open>
  The embed sent to the webhook carries the four arguments of
  \<open>send_discord_notification\<close> (and a time stamp, which is left out).
\<close>

datatype notification = Notification string string int int

text \<open>
  The outside world: the lines printed so far and the POST requests made so far, oldest
  first.
\<close>

record world =
  console :: "line list"
  posts :: "(string \<times> notification) list"

definition say :: "line \<Rightarrow> world \<Rightarrow> world" where
  "say l w = w\<lparr>console := console w @ [l]\<rparr>"

text \<open>
  \<open>requests.post\<close>: the request is recorded, and the endpoint decides the outcome. The
  endpoint is a parameter \<open>hook\<close>, the outcome of the \<open>n\<close>-th POST of the run: a raised
  exception or a response.
\<close>

definition requests_post ::
  "(nat \<Rightarrow> exn + response) \<Rightarrow> string \<Rightarrow> notification \<Rightarrow> world \<Rightarrow> (exn + response) \<times> world" where
  "requests_post hook url payload w =
     (hook (length (posts w)), w\<lparr>posts := posts w @ [(url, payload)]\<rparr>)"

section \<open>The notifier\<close>

text \<open>
  \<open>not self.discord_webhook\<close> holds for \<open>None\<close> and for the empty string.
\<close>

definition no_webhook :: "monitor \<Rightarrow> bool" where
  "no_webhook m = (case discord_webhook m of None \<Rightarrow> True | Some url \<Rightarrow> url = [])"

text \<open>
  \<open>send_discord_notification\<close>. The result is \<open>Inl e\<close> when the exception \<open>e\<close> leaves
  the function; the \<open>try\<close> block's only raising statement is the POST, and
  \<open>except Exception\<close> handles it.
\<close>

definition send_discord_notification ::
  "(nat \<Rightarrow> exn + response) \<Rightarrow> monitor \<Rightarrow> string \<Rightarrow> string \<Rightarrow> int \<Rightarrow> int \<Rightarrow> world
     \<Rightarrow> exn + monitor \<times> world" where
  "send_discord_notification hook m item_name category qty previous_quantity w =
     (if no_webhook m then Inr (m, w)
      else
        (case requests_post hook (the (discord_webhook m))
                (Notification item_name category qty previous_quantity) w of
           (Inr r, w1) \<Rightarrow>
             if status_code r = 204 then Inr (m, say (NotificationSent item_name category) w1)
             else Inr (m, say (NotificationFailed (status_code r)) w1)
         | (Inl e, w1) \<Rightarrow> Inr (m, say (NotificationError e) w1)))"

section \<open>The stock-change detector\<close>

text \<open>
  The detector and the display are given a snapshot whose values are lists of item
  records (\<open>as_items\<close> of what the fetcher stored); \<open>item.get\<close> with its default reads a
  record's member.
\<close>

definition get_name :: "item \<Rightarrow> string \<Rightarrow> string" where
  "get_name it dflt = (case name it of None \<Rightarrow> dflt | Some n \<Rightarrow> n)"

definition get_quantity :: "item \<Rightarrow> int \<Rightarrow> int" where
  "get_quantity it dflt = (case quantity it of None \<Rightarrow> dflt | Some q \<Rightarrow> q)"

text \<open>The inner and the outer loop that build \<open>current_stock\<close>.\<close>

fun scan_items ::
  "lowering \<Rightarrow> string \<Rightarrow> item list \<Rightarrow> (string \<times> int \<times> string) list \<Rightarrow> (string \<times> int \<times> string) list" where
  "scan_items lower category [] current_stock = current_stock"
| "scan_items lower category (it # items) current_stock =
     scan_items lower category items
       (dict_set current_stock (lower (get_name it [])) (get_quantity it 0, category))"

fun scan_categories ::
  "lowering \<Rightarrow> snapshot \<Rightarrow> (string \<times> int \<times> string) list \<Rightarrow> (string \<times> int \<times> string) list" where
  "scan_categories lower [] current_stock = current_stock"
| "scan_categories lower ((category, items) # rest) current_stock =
     scan_categories lower rest (scan_items lower category items current_stock)"

text \<open>The loop over the watchlist.\<close>

fun check_watched ::
  "lowering \<Rightarrow> (nat \<Rightarrow> exn + response) \<Rightarrow> (string \<times> int \<times> string) list \<Rightarrow> string list
     \<Rightarrow> monitor \<Rightarrow> world \<Rightarrow> exn + monitor \<times> world" where
  "check_watched lower hook current_stock [] m w = Inr (m, w)"
| "check_watched lower hook current_stock (watched_item # rest) m w =
     (let watched_item_lower = lower watched_item;
          current_data = dict_get current_stock watched_item_lower (0, ''unknown'');
          current_quantity = fst current_data;
          category = snd current_data;
          previous_quantity = dict_get (previous_stock m) watched_item_lower 0;
          sent =
            (if current_quantity > 0
             then send_discord_notification hook m watched_item category current_quantity
                    previous_quantity (say (Alert watched_item current_quantity category) w)
             else Inr (m, w))
      in case sent of
           Inl e \<Rightarrow> Inl e
         | Inr (m1, w1) \<Rightarrow>
             check_watched lower hook current_stock rest
               (m1\<lparr>previous_stock :=
                      dict_set (previous_stock m1) watched_item_lower current_quantity\<rparr>) w1)"

definition check_stock_changes ::
  "lowering \<Rightarrow> (nat \<Rightarrow> exn + response) \<Rightarrow> monitor \<Rightarrow> snapshot \<Rightarrow> world \<Rightarrow> exn + monitor \<times> world" where
  "check_stock_changes lower hook m all_items_data w =
     (if watchlist m = [] then Inr (m, w)
      else check_watched lower hook (scan_categories lower all_items_data []) (watchlist m) m w)"

section \<open>The inventory fetcher\<close>




section \<open>The display\<close>

text \<open>
  \<open>display_all_items\<close> from its two counters on: the banner, the time stamp and the
  status lines printed before them read the clock and do not touch the counters. The
  names joined into the aggregate line are kept as a list.
\<close>

definition is_watched :: "lowering \<Rightarrow> monitor \<Rightarrow> string \<Rightarrow> bool" where
  "is_watched lower m item_name = (lower item_name \<in> set (map lower (watchlist m)))"

fun display_items ::
  "lowering \<Rightarrow> monitor \<Rightarrow> string \<Rightarrow> item list \<Rightarrow> nat \<times> string list \<times> world \<Rightarrow> nat \<times> string list \<times> world" where
  "display_items lower m category [] acc = acc"
| "display_items lower m category (it # items) (total_items, watched_items_found, w) =
     (let item_name = get_name it ''Unknown'';
          qty = get_quantity it 0;
          watched = is_watched lower m item_name;
          found =
            (if watched then watched_items_found @ [item_name @ '' ('' @ category @ '')'']
             else watched_items_found);
          w1 = say (ItemLine watched item_name qty) w;
          w2 =
            (if watched \<and> qty > 0 then say InStock w1
             else if watched \<and> qty = 0 then say OutOfStock w1
             else w1)
      in display_items lower m category items (total_items + 1, found, w2))"

fun display_categories ::
  "lowering \<Rightarrow> monitor \<Rightarrow> snapshot \<Rightarrow> nat \<times> string list \<times> world \<Rightarrow> nat \<times> string list \<times> world" where
  "display_categories lower m [] acc = acc"
| "display_categories lower m ((category, items) # rest) (total_items, watched_items_found, w) =
     (if items = [] then display_categories lower m rest (total_items, watched_items_found, w)
      else
        display_categories lower m rest
          (display_items lower m category items
             (total_items, watched_items_found, say (CategoryHeader category (length items)) w)))"

definition display_all_items :: "lowering \<Rightarrow> monitor \<Rightarrow> snapshot \<Rightarrow> world \<Rightarrow> world" where
  "display_all_items lower m all_items_data w =
     (case display_categories lower m all_items_data (0, [], w) of
        (total_items, watched_items_found, w1) \<Rightarrow>
          let w2 = say (TotalItems total_items) w1
          in if watched_items_found \<noteq> [] then say (WatchedItemsFound watched_items_found) w2
             else say NoWatchedItems w2)"

section \<open>The run loop\<close>

text \<open>
  The calls of \<open>check_stock_changes\<close> that \<open>run\<close> makes, one for each cycle's snapshot.
  Nothing else in the program assigns \<open>previous_stock\<close> or \<open>watchlist\<close> after
  \<open>__init__\<close>.
\<close>

fun detector_passes ::
  "lowering \<Rightarrow> (nat \<Rightarrow> exn + response) \<Rightarrow> monitor \<Rightarrow> snapshot list \<Rightarrow> world \<Rightarrow> exn + monitor \<times> world" where
  "detector_passes lower hook m [] w = Inr (m, w)"
| "detector_passes lower hook m (all_items_data # later) w =
     (case check_stock_changes lower hook m all_items_data w of
        Inl e \<Rightarrow> Inl e
      | Inr (m1, w1) \<Rightarrow> detector_passes lower hook m1 later w1)"

text \<open>
  The countdown of the auto-refresh branch,
  \<^verbatim>\<open>for _ in range(remaining): if not self.running: break; time.sleep(1)\<close>.
  The flag is written by the keyboard thread, so what the loop reads is a parameter:
  \<open>running k\<close> is the value of \<open>self.running\<close> at the check made after \<open>k\<close> sleeps. The
  result is the number of \<open>time.sleep(1)\<close> calls made when the loop is left.
\<close>

fun wait_loop :: "(nat \<Rightarrow> bool) \<Rightarrow> nat \<Rightarrow> nat \<Rightarrow> nat" where
  "wait_loop running slept 0 = slept"
| "wait_loop running slept (Suc remaining) =
     (if \<not> running slept then slept else wait_loop running (Suc slept) remaining)"

section \<open>What the snapshot says about a name\<close>

text \<open>
  The records of a snapshot whose lower-cased name is \<open>k\<close>, as quantity and category, in
  the order of the scan (categories in order, items in order).
\<close>

definition matches :: "lowering \<Rightarrow> snapshot \<Rightarrow> string \<Rightarrow> (int \<times> string) list" where
  "matches lower all_items_data k =
     concat (map (\<lambda>(category, items).
       map (\<lambda>it. (get_quantity it 0, category))
         (filter (\<lambda>it. lower (get_name it []) = k) items)) all_items_data)"

definition first_match :: "lowering \<Rightarrow> snapshot \<Rightarrow> string \<Rightarrow> int \<times> string" where
  "first_match lower all_items_data k =
     (if matches lower all_items_data k = [] then (0, ''unknown'') else hd (matches lower all_items_data k))"

definition last_match :: "lowering \<Rightarrow> snapshot \<Rightarrow> string \<Rightarrow> int \<times> string" where
  "last_match lower all_items_data k =
     (if matches lower all_items_data k = [] then (0, ''unknown'') else last (matches lower all_items_data k))"

text \<open>The watchlist entries in stock according to a lookup, in watchlist order.\<close>

definition in_stock :: "lowering \<Rightarrow> (string \<Rightarrow> int \<times> string) \<Rightarrow> string list \<Rightarrow> string list" where
  "in_stock lower cur wl = filter (\<lambda>x. fst (cur (lower x)) > 0) wl"

definition is_alert :: "line \<Rightarrow> bool" where
  "is_alert l = (case l of Alert x q c \<Rightarrow> True | _ \<Rightarrow> False)"

text \<open>The records that the display counts as watched, as it labels them.\<close>

definition watched_records :: "lowering \<Rightarrow> monitor \<Rightarrow> snapshot \<Rightarrow> string list" where
  "watched_records lower m all_items_data =
     concat (map (\<lambda>(category, items).
       map (\<lambda>it. get_name it ''Unknown'' @ '' ('' @ category @ '')'')
         (filter (\<lambda>it. is_watched lower m (get_name it ''Unknown'')) items)) all_items_data)"

section \<open>One round of the watchlist loop in closed form\<close>

text \<open>
  What one round of the watchlist loop prints and posts for the entry \<open>x\<close> whose lookup
  gave \<open>d\<close>, when \<open>n\<close> POSTs were made before.
\<close>

definition dispatch_line :: "exn + response \<Rightarrow> string \<Rightarrow> string \<Rightarrow> line" where
  "dispatch_line outcome item_name category =
     (case outcome of
        Inl e \<Rightarrow> NotificationError e
      | Inr r \<Rightarrow>
          if status_code r = 204 then NotificationSent item_name category
          else NotificationFailed (status_code r))"

definition alert_lines ::
  "(nat \<Rightarrow> exn + response) \<Rightarrow> monitor \<Rightarrow> string \<Rightarrow> int \<times> string \<Rightarrow> nat \<Rightarrow> line list" where
  "alert_lines hook m x d n =
     (if fst d > 0
      then Alert x (fst d) (snd d) # (if no_webhook m then [] else [dispatch_line (hook n) x (snd d)])
      else [])"

definition alert_posts :: "lowering \<Rightarrow> monitor \<Rightarrow> string \<Rightarrow> int \<times> string \<Rightarrow> (string \<times> notification) list" where
  "alert_posts lower m x d =
     (if fst d > 0 \<and> \<not> no_webhook m
      then [(the (discord_webhook m),
             Notification x (snd d) (fst d) (dict_get (previous_stock m) (lower x) 0))]
      else [])"

definition alert_step ::
  "lowering \<Rightarrow> (nat \<Rightarrow> exn + response) \<Rightarrow> monitor \<Rightarrow> string \<Rightarrow> int \<times> string \<Rightarrow> world \<Rightarrow> world" where
  "alert_step lower hook m x d w =
     w\<lparr>console := console w @ alert_lines hook m x d (length (posts w)),
       posts := posts w @ alert_posts lower m x d\<rparr>"

section \<open>Notions used in the statements\<close>

text \<open>The alert printed for a watchlist entry, given the lookup of lower-cased names.\<close>

definition alert_of :: "lowering \<Rightarrow> (string \<Rightarrow> int \<times> string) \<Rightarrow> string \<Rightarrow> line" where
  "alert_of lower cur x = Alert x (fst (cur (lower x))) (snd (cur (lower x)))"

text \<open>A POST without the previous quantity, and the POST expected for an entry.\<close>

definition post_event :: "string \<times> notification \<Rightarrow> string \<times> string \<times> string \<times> int" where
  "post_event p = (case p of (url, Notification x c q prev) \<Rightarrow> (url, x, c, q))"

definition trigger_of ::
  "lowering \<Rightarrow> monitor \<Rightarrow> (string \<Rightarrow> int \<times> string) \<Rightarrow> string \<Rightarrow> string \<times> string \<times> string \<times> int" where
  "trigger_of lower m cur x = (the (discord_webhook m), x, snd (cur (lower x)), fst (cur (lower x)))"




text \<open>The label of a record in the aggregate line of the display.\<close>

definition label :: "string \<Rightarrow> item \<Rightarrow> string" where
  "label category it = get_name it ''Unknown'' @ '' ('' @ category @ '')''"

text \<open>
  Two strings with the same \<open>lower()\<close> form, which is how the program tells that names
  differ in letter case only; records, categories and snapshots that differ in such
  names only; and a printed line and a POST with the item name they carry in its
  \<open>lower()\<close> form.
\<close>

definition same_name :: "lowering \<Rightarrow> string \<Rightarrow> string \<Rightarrow> bool" where
  "same_name lower s t = (lower s = lower t)"

definition recased_item :: "lowering \<Rightarrow> item \<Rightarrow> item \<Rightarrow> bool" where
  "recased_item lower a b = (quantity a = quantity b \<and> rel_option (same_name lower) (name a) (name b))"

definition recased_category :: "lowering \<Rightarrow> string \<times> item list \<Rightarrow> string \<times> item list \<Rightarrow> bool" where
  "recased_category lower p p' = (fst p = fst p' \<and> list_all2 (recased_item lower) (snd p) (snd p'))"

definition recased_snapshot :: "lowering \<Rightarrow> snapshot \<Rightarrow> snapshot \<Rightarrow> bool" where
  "recased_snapshot lower = list_all2 (recased_category lower)"

fun fold_line :: "lowering \<Rightarrow> line \<Rightarrow> line" where
  "fold_line lower (Alert x q c) = Alert (lower x) q c"
| "fold_line lower (NotificationSent x c) = NotificationSent (lower x) c"
| "fold_line lower l = l"

fun fold_post :: "lowering \<Rightarrow> string \<times> notification \<Rightarrow> string \<times> notification" where
  "fold_post lower (url, Notification x c q p) = (url, Notification (lower x) c q p)"

section \<open>Example inputs\<close>

text \<open>
  \<open>str.lower\<close> on the strings whose characters outside ASCII it leaves as they are:
  the letters \<open>A\<close> to \<open>Z\<close> are folded and every other byte is kept. Every ASCII string
  is such a string, and so is one whose only other character is the sharp s.
\<close>

definition ascii_lower_char :: "char \<Rightarrow> char" where
  "ascii_lower_char c =
     (case map_of (zip ''ABCDEFGHIJKLMNOPQRSTUVWXYZ'' ''abcdefghijklmnopqrstuvwxyz'') c of
        None \<Rightarrow> c
      | Some l \<Rightarrow> l)"

definition ascii_lower :: lowering where
  "ascii_lower s = map ascii_lower_char s"

definition webhook_url :: string where
  "webhook_url = ''https://discord.com/api/webhooks/1''"

definition quiet :: world where
  "quiet = \<lparr>console = [], posts = []\<rparr>"

definition hook_204 :: "nat \<Rightarrow> exn + response" where
  "hook_204 n = Inr \<lparr>status_code = 204, response_json = Inl RequestsJSONDecodeError\<rparr>"

definition hook_500 :: "nat \<Rightarrow> exn + response" where
  "hook_500 n = Inr \<lparr>status_code = 500, response_json = Inl RequestsJSONDecodeError\<rparr>"

definition hook_down :: "nat \<Rightarrow> exn + response" where
  "hook_down n = Inl RequestException"

text \<open>A monitor in its second cycle: the first one saw the quantities of \<open>seeds_stocked\<close>.\<close>

definition watching_three :: monitor where
  "watching_three =
     (init [''Sunflower'', ''Carrot'', ''Tulip''] (Some webhook_url))
       \<lparr>previous_stock := [(''sunflower'', 3), (''carrot'', 0), (''tulip'', 0)]\<rparr>"

definition seeds_stocked :: snapshot where
  "seeds_stocked =
     [(''seeds'', [\<lparr>name = Some ''Sunflower'', quantity = Some 3\<rparr>,
                   \<lparr>name = Some ''CARROT'', quantity = Some 0\<rparr>]),
      (''gear'', [])]"

definition carrot_twice :: snapshot where
  "carrot_twice =
     [(''seeds'', [\<lparr>name = Some ''Carrot'', quantity = Some 3\<rparr>]),
      (''gear'', [\<lparr>name = Some ''carrot'', quantity = Some 7\<rparr>])]"





text \<open>
  A name with a sharp s, as UTF-8, and the same name in capitals as \<open>str.upper\<close> gives
  it; \<open>str.lower\<close> keeps the sharp s and folds \<open>SS\<close> to \<open>ss\<close>.
\<close>

definition strasse :: string where
  "strasse = ''Stra'' @ [CHR 0xC3, CHR 0x9F] @ ''e''"

definition strasse_lower :: string where
  "strasse_lower = ''stra'' @ [CHR 0xC3, CHR 0x9F] @ ''e''"

definition strasse_stocked :: snapshot where
  "strasse_stocked = [(''seeds'', [\<lparr>name = Some strasse, quantity = Some 2\<rparr>])]"

definition carrot_sold_out :: snapshot where
  "carrot_sold_out = [(''seeds'', [\<lparr>name = Some ''carrot'', quantity = Some 0\<rparr>]), (''gear'', [])]"

definition shouting :: snapshot where
  "shouting =
     [(''seeds'', [\<lparr>name = Some ''SUNFLOWER'', quantity = Some 3\<rparr>,
                   \<lparr>name = Some ''carrot'', quantity = Some 0\<rparr>]),
      (''gear'', [])]"

text \<open>The flag as the loop reads it when the quit key is pressed during the first sleep.\<close>

definition quit_during_first_sleep :: "nat \<Rightarrow> bool" where
  "quit_during_first_sleep k = (k < 1)"

section \<open>Properties\<close>

subsection \<open>The scan of the snapshot\<close>

lemma map_of_scan_items:
  "map_of (scan_items lower c items cs) k =
     (let ms = map (\<lambda>it. (get_quantity it 0, c)) (filter (\<lambda>it. lower (get_name it []) = k) items)
      in if ms = [] then map_of cs k else Some (last ms))"
  by (induction items arbitrary: cs) (auto simp: dict_set_def update_conv' Let_def)

lemma matches_Nil: "matches lower [] k = []"
  by (simp add: matches_def)

lemma matches_Cons:
  "matches lower ((c, items) # snap) k =
     map (\<lambda>it. (get_quantity it 0, c)) (filter (\<lambda>it. lower (get_name it []) = k) items)
       @ matches lower snap k"
  by (simp add: matches_def)

lemma map_of_scan_categories:
  "map_of (scan_categories lower snap cs) k =
     (if matches lower snap k = [] then map_of cs k else Some (last (matches lower snap k)))"
proof (induction snap arbitrary: cs)
  case Nil
  show ?case by (simp add: matches_Nil)
next
  case (Cons p snap)
  obtain c items where p: "p = (c, items)" by (cases p)
  show ?case
    unfolding p by (simp add: Cons.IH matches_Cons map_of_scan_items Let_def)
qed

lemma current_stock_lookup:
  "dict_get (scan_categories lower snap []) k (0, ''unknown'') = last_match lower snap k"
  by (simp add: dict_get_def map_of_scan_categories last_match_def)

subsection \<open>The notifier and the loop over the watchlist\<close>

lemma is_alert_dispatch_line: "\<not> is_alert (dispatch_line outcome x c)"
  by (cases outcome) (simp_all add: dispatch_line_def is_alert_def)

lemma filter_alert_lines:
  "filter is_alert (alert_lines hook m x d n) = (if fst d > 0 then [Alert x (fst d) (snd d)] else [])"
  by (simp add: alert_lines_def is_alert_dispatch_line) (simp add: is_alert_def)

lemma send_discord_notification_eq:
  "send_discord_notification hook m x c q p w =
     Inr (m, if no_webhook m then w
             else w\<lparr>console := console w @ [dispatch_line (hook (length (posts w))) x c],
                    posts := posts w @ [(the (discord_webhook m), Notification x c q p)]\<rparr>)"
  by (cases "hook (length (posts w))")
     (simp_all add: send_discord_notification_def requests_post_def say_def dispatch_line_def)

lemma check_watched_Cons:
  "check_watched lower hook cs (x # rest) m w =
     check_watched lower hook cs rest
       (m\<lparr>previous_stock :=
            dict_set (previous_stock m) (lower x) (fst (dict_get cs (lower x) (0, ''unknown'')))\<rparr>)
       (alert_step lower hook m x (dict_get cs (lower x) (0, ''unknown'')) w)"
  by (simp add: Let_def send_discord_notification_eq alert_step_def alert_lines_def
      alert_posts_def say_def)

lemma no_webhook_previous_stock [simp]:
  "no_webhook (m\<lparr>previous_stock := P\<rparr>) = no_webhook m"
  by (simp add: no_webhook_def)

lemma check_watched_total:
  "\<exists>P w'. check_watched lower hook cs wl m w = Inr (m\<lparr>previous_stock := P\<rparr>, w')"
proof (induction wl arbitrary: m w)
  case Nil
  have "check_watched lower hook cs [] m w = Inr (m\<lparr>previous_stock := previous_stock m\<rparr>, w)" by simp
  then show ?case by blast
next
  case (Cons x rest)
  from Cons.IH [of "m\<lparr>previous_stock :=
            dict_set (previous_stock m) (lower x) (fst (dict_get cs (lower x) (0, ''unknown'')))\<rparr>"
      "alert_step lower hook m x (dict_get cs (lower x) (0, ''unknown'')) w"]
  show ?case unfolding check_watched_Cons by simp
qed

lemma check_watched_previous_stock:
  "check_watched lower hook cs wl m w = Inr (m', w') \<Longrightarrow>
   map_of (previous_stock m') k =
     (if k \<in> lower ` set wl then Some (fst (dict_get cs k (0, ''unknown'')))
      else map_of (previous_stock m) k)"
proof (induction wl arbitrary: m w)
  case Nil
  then show ?case by simp
next
  case (Cons x rest)
  from Cons.prems have
    "check_watched lower hook cs rest
       (m\<lparr>previous_stock :=
            dict_set (previous_stock m) (lower x) (fst (dict_get cs (lower x) (0, ''unknown'')))\<rparr>)
       (alert_step lower hook m x (dict_get cs (lower x) (0, ''unknown'')) w) = Inr (m', w')"
    by (simp only: check_watched_Cons)
  from Cons.IH [OF this] show ?case
    by (auto simp: dict_set_def update_conv')
qed

lemma check_watched_keys:
  "check_watched lower hook cs wl m w = Inr (m', w') \<Longrightarrow>
   set (dict_keys (previous_stock m')) = set (dict_keys (previous_stock m)) \<union> lower ` set wl"
proof (induction wl arbitrary: m w)
  case Nil
  then show ?case by simp
next
  case (Cons x rest)
  from Cons.prems have
    "check_watched lower hook cs rest
       (m\<lparr>previous_stock :=
            dict_set (previous_stock m) (lower x) (fst (dict_get cs (lower x) (0, ''unknown'')))\<rparr>)
       (alert_step lower hook m x (dict_get cs (lower x) (0, ''unknown'')) w) = Inr (m', w')"
    by (simp only: check_watched_Cons)
  from Cons.IH [OF this] show ?case
    by (auto simp: dict_set_def dict_keys_def dom_update)
qed

lemma check_watched_distinct:
  "check_watched lower hook cs wl m w = Inr (m', w') \<Longrightarrow> distinct (dict_keys (previous_stock m)) \<Longrightarrow>
   distinct (dict_keys (previous_stock m'))"
proof (induction wl arbitrary: m w)
  case Nil
  then show ?case by simp
next
  case (Cons x rest)
  from Cons.prems have
    "check_watched lower hook cs rest
       (m\<lparr>previous_stock :=
            dict_set (previous_stock m) (lower x) (fst (dict_get cs (lower x) (0, ''unknown'')))\<rparr>)
       (alert_step lower hook m x (dict_get cs (lower x) (0, ''unknown'')) w) = Inr (m', w')"
    by (simp only: check_watched_Cons)
  from Cons.IH [OF this] Cons.prems(2) show ?case
    by (simp add: dict_set_def dict_keys_def distinct_update)
qed

lemma check_watched_alerts:
  "check_watched lower hook cs wl m w = Inr (m', w') \<Longrightarrow>
   \<exists>ls. console w' = console w @ ls \<and>
        filter is_alert ls =
          map (alert_of lower (\<lambda>k. dict_get cs k (0, ''unknown'')))
            (in_stock lower (\<lambda>k. dict_get cs k (0, ''unknown'')) wl)"
proof (induction wl arbitrary: m w)
  case Nil
  then show ?case by (simp add: in_stock_def)
next
  case (Cons x rest)
  let ?d = "dict_get cs (lower x) (0, ''unknown'')"
  from Cons.prems have
    "check_watched lower hook cs rest
       (m\<lparr>previous_stock := dict_set (previous_stock m) (lower x) (fst ?d)\<rparr>)
       (alert_step lower hook m x ?d w) = Inr (m', w')"
    by (simp only: check_watched_Cons)
  from Cons.IH [OF this] obtain ls where
    ls: "console w' = console (alert_step lower hook m x ?d w) @ ls"
      "filter is_alert ls = map (alert_of lower (\<lambda>k. dict_get cs k (0, ''unknown'')))
            (in_stock lower (\<lambda>k. dict_get cs k (0, ''unknown'')) rest)"
    by blast
  define l0 where "l0 = alert_lines hook m x ?d (length (posts w))"
  have l0: "console (alert_step lower hook m x ?d w) = console w @ l0"
    "filter is_alert l0 = (if fst ?d > 0 then [alert_of lower (\<lambda>k. dict_get cs k (0, ''unknown'')) x] else [])"
    by (simp_all add: alert_step_def l0_def filter_alert_lines alert_of_def)
  have "console w' = console w @ (l0 @ ls)" using ls l0 by simp
  moreover have "filter is_alert (l0 @ ls) = map (alert_of lower (\<lambda>k. dict_get cs k (0, ''unknown'')))
            (in_stock lower (\<lambda>k. dict_get cs k (0, ''unknown'')) (x # rest))"
    using ls l0 by (simp add: in_stock_def)
  ultimately show ?case by blast
qed


lemma trigger_of_previous_stock [simp]:
  "trigger_of lower (m\<lparr>previous_stock := P\<rparr>) cur = trigger_of lower m cur"
  by (simp add: trigger_of_def fun_eq_iff)

lemma map_post_event_alert_posts:
  "map post_event (alert_posts lower m x (cur (lower x))) =
     (if no_webhook m then [] else map (trigger_of lower m cur) (in_stock lower cur [x]))"
  by (simp add: alert_posts_def post_event_def trigger_of_def in_stock_def)

lemma in_stock_Cons: "in_stock lower cur (x # rest) = in_stock lower cur [x] @ in_stock lower cur rest"
  by (simp add: in_stock_def)

lemma check_watched_posts:
  "check_watched lower hook cs wl m w = Inr (m', w') \<Longrightarrow>
   \<exists>ps. posts w' = posts w @ ps \<and>
        map post_event ps =
          (if no_webhook m then []
           else map (trigger_of lower m (\<lambda>k. dict_get cs k (0, ''unknown'')))
                  (in_stock lower (\<lambda>k. dict_get cs k (0, ''unknown'')) wl))"
proof (induction wl arbitrary: m w)
  case Nil
  then show ?case by (simp add: in_stock_def)
next
  case (Cons x rest)
  let ?cur = "\<lambda>k. dict_get cs k (0, ''unknown'')"
  let ?d = "?cur (lower x)"
  from Cons.prems have
    "check_watched lower hook cs rest
       (m\<lparr>previous_stock := dict_set (previous_stock m) (lower x) (fst ?d)\<rparr>)
       (alert_step lower hook m x ?d w) = Inr (m', w')"
    by (simp only: check_watched_Cons)
  from Cons.IH [OF this] obtain ps where
    ps: "posts w' = posts (alert_step lower hook m x ?d w) @ ps"
      "map post_event ps =
         (if no_webhook m then [] else map (trigger_of lower m ?cur) (in_stock lower ?cur rest))"
    by auto
  have "posts w' = posts w @ (alert_posts lower m x ?d @ ps)"
    using ps(1) by (simp add: alert_step_def)
  moreover have "map post_event (alert_posts lower m x ?d @ ps) =
     (if no_webhook m then [] else map (trigger_of lower m ?cur) (in_stock lower ?cur (x # rest)))"
    using ps(2) map_post_event_alert_posts [of lower m x ?cur]
    by (simp add: in_stock_Cons [of lower ?cur x rest])
  ultimately show ?case by blast
qed

lemma check_watched_no_webhook:
  "check_watched lower hook cs wl m w = Inr (m', w') \<Longrightarrow> no_webhook m \<Longrightarrow>
   w' = w\<lparr>console := console w @
           map (alert_of lower (\<lambda>k. dict_get cs k (0, ''unknown'')))
             (in_stock lower (\<lambda>k. dict_get cs k (0, ''unknown'')) wl)\<rparr>"
proof (induction wl arbitrary: m w)
  case Nil
  then show ?case by (simp add: in_stock_def)
next
  case (Cons x rest)
  let ?cur = "\<lambda>k. dict_get cs k (0, ''unknown'')"
  let ?d = "?cur (lower x)"
  from Cons.prems have
    "check_watched lower hook cs rest
       (m\<lparr>previous_stock := dict_set (previous_stock m) (lower x) (fst ?d)\<rparr>)
       (alert_step lower hook m x ?d w) = Inr (m', w')"
    by (simp only: check_watched_Cons)
  from Cons.IH [OF this] Cons.prems(2) have
    "w' = (alert_step lower hook m x ?d w)\<lparr>console := console (alert_step lower hook m x ?d w) @
            map (alert_of lower ?cur) (in_stock lower ?cur rest)\<rparr>"
    by simp
  then show ?case using Cons.prems(2)
    by (simp add: alert_step_def alert_lines_def alert_posts_def in_stock_def alert_of_def)
qed

lemma check_stock_changes_eq:
  "check_stock_changes lower hook m snap w =
     check_watched lower hook (scan_categories lower snap []) (watchlist m) m w"
  by (simp add: check_stock_changes_def)

lemma current_stock_fun:
  "(\<lambda>k. dict_get (scan_categories lower snap []) k (0, ''unknown'')) = last_match lower snap"
  by (simp add: fun_eq_iff current_stock_lookup)

lemma pass_total:
  "\<exists>P w'. check_stock_changes lower hook m snap w = Inr (m\<lparr>previous_stock := P\<rparr>, w')"
  unfolding check_stock_changes_eq by (rule check_watched_total)

lemma pass_previous_stock:
  "check_stock_changes lower hook m snap w = Inr (m', w') \<Longrightarrow>
   map_of (previous_stock m') k =
     (if k \<in> lower ` set (watchlist m) then Some (fst (last_match lower snap k))
      else map_of (previous_stock m) k)"
  unfolding check_stock_changes_eq
  by (drule check_watched_previous_stock [where k = k]) (simp add: current_stock_lookup)

lemma pass_keys:
  "check_stock_changes lower hook m snap w = Inr (m', w') \<Longrightarrow>
   set (dict_keys (previous_stock m')) =
     set (dict_keys (previous_stock m)) \<union> lower ` set (watchlist m)"
  unfolding check_stock_changes_eq by (rule check_watched_keys)

lemma pass_distinct:
  "check_stock_changes lower hook m snap w = Inr (m', w') \<Longrightarrow>
   distinct (dict_keys (previous_stock m)) \<Longrightarrow> distinct (dict_keys (previous_stock m'))"
  unfolding check_stock_changes_eq by (rule check_watched_distinct)

lemma pass_alerts:
  "check_stock_changes lower hook m snap w = Inr (m', w') \<Longrightarrow>
   \<exists>ls. console w' = console w @ ls \<and>
        filter is_alert ls = map (alert_of lower (last_match lower snap)) (in_stock lower (last_match lower snap) (watchlist m))"
  using check_watched_alerts [of lower hook "scan_categories lower snap []" "watchlist m" m w m' w']
  unfolding check_stock_changes_eq current_stock_fun .

lemma pass_posts:
  "check_stock_changes lower hook m snap w = Inr (m', w') \<Longrightarrow>
   \<exists>ps. posts w' = posts w @ ps \<and>
        map post_event ps =
          (if no_webhook m then []
           else map (trigger_of lower m (last_match lower snap)) (in_stock lower (last_match lower snap) (watchlist m)))"
  using check_watched_posts [of lower hook "scan_categories lower snap []" "watchlist m" m w m' w']
  unfolding check_stock_changes_eq current_stock_fun .

lemma pass_no_webhook:
  "check_stock_changes lower hook m snap w = Inr (m', w') \<Longrightarrow> no_webhook m \<Longrightarrow>
   w' = w\<lparr>console := console w @
           map (alert_of lower (last_match lower snap)) (in_stock lower (last_match lower snap) (watchlist m))\<rparr>"
  using check_watched_no_webhook [of lower hook "scan_categories lower snap []" "watchlist m" m w m' w']
  unfolding check_stock_changes_eq current_stock_fun .

lemma alert_in_filter:
  "Alert x q c \<in> set ls \<longleftrightarrow> Alert x q c \<in> set (filter is_alert ls)"
  by (simp add: is_alert_def)

lemma alert_in_stock_iff:
  "Alert x q c \<in> set (map (alert_of lower cur) (in_stock lower cur wl)) \<longleftrightarrow>
     x \<in> set wl \<and> (q, c) = cur (lower x) \<and> q > 0"
  by (auto simp: alert_of_def in_stock_def prod_eq_iff)

lemma pass_summary:
  "\<exists>P w'. check_stock_changes lower hook m snap w = Inr (m\<lparr>previous_stock := P\<rparr>, w') \<and>
     set (dict_keys P) = set (dict_keys (previous_stock m)) \<union> lower ` set (watchlist m) \<and>
     (distinct (dict_keys (previous_stock m)) \<longrightarrow> distinct (dict_keys P)) \<and>
     (\<forall>k. map_of P k =
        (if k \<in> lower ` set (watchlist m) then Some (fst (last_match lower snap k))
         else map_of (previous_stock m) k))"
proof -
  obtain P w' where r: "check_stock_changes lower hook m snap w = Inr (m\<lparr>previous_stock := P\<rparr>, w')"
    using pass_total by blast
  have "set (dict_keys P) = set (dict_keys (previous_stock m)) \<union> lower ` set (watchlist m)"
    using pass_keys [OF r] by simp
  moreover have "distinct (dict_keys (previous_stock m)) \<longrightarrow> distinct (dict_keys P)"
    using pass_distinct [OF r] by simp
  moreover have "\<forall>k. map_of P k =
        (if k \<in> lower ` set (watchlist m) then Some (fst (last_match lower snap k))
         else map_of (previous_stock m) k)"
    using pass_previous_stock [OF r] by simp
  ultimately show ?thesis using r by blast
qed

lemma passes_summary:
  "snaps \<noteq> [] \<Longrightarrow>
   \<exists>P w'. detector_passes lower hook m snaps w = Inr (m\<lparr>previous_stock := P\<rparr>, w') \<and>
     set (dict_keys P) = set (dict_keys (previous_stock m)) \<union> lower ` set (watchlist m) \<and>
     (distinct (dict_keys (previous_stock m)) \<longrightarrow> distinct (dict_keys P)) \<and>
     (\<forall>k. map_of P k =
        (if k \<in> lower ` set (watchlist m) then Some (fst (last_match lower (last snaps) k))
         else map_of (previous_stock m) k))"
proof (induction snaps arbitrary: m w)
  case Nil
  then show ?case by simp
next
  case (Cons s rest)
  obtain P1 w1 where r1: "check_stock_changes lower hook m s w = Inr (m\<lparr>previous_stock := P1\<rparr>, w1)"
    and k1: "set (dict_keys P1) = set (dict_keys (previous_stock m)) \<union> lower ` set (watchlist m)"
    and d1: "distinct (dict_keys (previous_stock m)) \<longrightarrow> distinct (dict_keys P1)"
    and v1: "\<forall>k. map_of P1 k =
        (if k \<in> lower ` set (watchlist m) then Some (fst (last_match lower s k))
         else map_of (previous_stock m) k)"
    using pass_summary [of lower hook m s w] by blast
  have step: "detector_passes lower hook m (s # rest) w =
      detector_passes lower hook (m\<lparr>previous_stock := P1\<rparr>) rest w1"
    by (simp add: r1)
  show ?case
  proof (cases "rest = []")
    case True
    have "detector_passes lower hook m (s # rest) w = Inr (m\<lparr>previous_stock := P1\<rparr>, w1)"
      using True r1 by simp
    moreover have "\<forall>k. map_of P1 k =
        (if k \<in> lower ` set (watchlist m) then Some (fst (last_match lower (last (s # rest)) k))
         else map_of (previous_stock m) k)"
      using v1 True by simp
    ultimately show ?thesis using k1 d1 by blast
  next
    case False
    from Cons.IH [OF False, of "m\<lparr>previous_stock := P1\<rparr>" w1]
    obtain P2 w2 where
      r2: "detector_passes lower hook (m\<lparr>previous_stock := P1\<rparr>) rest w1 = Inr (m\<lparr>previous_stock := P2\<rparr>, w2)"
      and k2: "set (dict_keys P2) = set (dict_keys P1) \<union> lower ` set (watchlist m)"
      and d2: "distinct (dict_keys P1) \<longrightarrow> distinct (dict_keys P2)"
      and v2: "\<forall>k. map_of P2 k =
        (if k \<in> lower ` set (watchlist m) then Some (fst (last_match lower (last rest) k))
         else map_of P1 k)"
      by auto
    have "detector_passes lower hook m (s # rest) w = Inr (m\<lparr>previous_stock := P2\<rparr>, w2)"
      using step r2 by simp
    moreover have "set (dict_keys P2) =
        set (dict_keys (previous_stock m)) \<union> lower ` set (watchlist m)"
      using k1 k2 by auto
    moreover have "distinct (dict_keys (previous_stock m)) \<longrightarrow> distinct (dict_keys P2)"
      using d1 d2 by simp
    moreover have "\<forall>k. map_of P2 k =
        (if k \<in> lower ` set (watchlist m) then Some (fst (last_match lower (last (s # rest)) k))
         else map_of (previous_stock m) k)"
      using v1 v2 False by simp
    ultimately show ?thesis by blast
  qed
qed

subsection \<open>The fetcher\<close>





subsection \<open>The display\<close>

lemma display_items_found:
  "fst (snd (display_items lower m c items (t, f, w))) =
     f @ map (label c) (filter (\<lambda>it. is_watched lower m (get_name it ''Unknown'')) items)"
  by (induction items arbitrary: t f w) (simp_all add: Let_def label_def)

lemma watched_records_Nil: "watched_records lower m [] = []"
  by (simp add: watched_records_def)

lemma watched_records_Cons:
  "watched_records lower m ((c, items) # snap) =
     map (label c) (filter (\<lambda>it. is_watched lower m (get_name it ''Unknown'')) items)
       @ watched_records lower m snap"
  by (simp add: watched_records_def label_def)

lemma display_categories_found:
  "fst (snd (display_categories lower m snap (t, f, w))) = f @ watched_records lower m snap"
proof (induction snap arbitrary: t f w)
  case Nil
  show ?case by (simp add: watched_records_Nil)
next
  case (Cons p snap)
  obtain c items where p: "p = (c, items)" by (cases p)
  show ?case
  proof (cases "items = []")
    case True
    then show ?thesis unfolding p by (simp add: Cons.IH watched_records_Cons)
  next
    case False
    obtain t1 f1 w1 where
      d: "display_items lower m c items (t, f, say (CategoryHeader c (length items)) w) = (t1, f1, w1)"
      by (cases "display_items lower m c items (t, f, say (CategoryHeader c (length items)) w)")
    have "f1 = f @ map (label c) (filter (\<lambda>it. is_watched lower m (get_name it ''Unknown'')) items)"
      using display_items_found [of lower m c items t f "say (CategoryHeader c (length items)) w"]
      by (simp add: d)
    then show ?thesis unfolding p using False
      by (simp add: d Cons.IH watched_records_Cons)
  qed
qed

lemma last_console_say: "last (console (say l w)) = l"
  by (simp add: say_def)

subsection \<open>Letter case\<close>

lemma recased_item_keys:
  "(recased_item lower) a b \<Longrightarrow>
   lower (get_name a []) = lower (get_name b []) \<and> get_quantity a 0 = get_quantity b 0"
  by (cases "name a"; cases "name b")
     (simp_all add: recased_item_def get_name_def get_quantity_def same_name_def)

lemma scan_items_recased:
  "list_all2 (recased_item lower) xs ys \<Longrightarrow> scan_items lower c xs cs = scan_items lower c ys cs"
proof (induction xs ys arbitrary: cs rule: list_all2_induct)
  case Nil
  show ?case by simp
next
  case (Cons a xs b ys)
  from recased_item_keys [OF Cons.hyps(1)] Cons.IH show ?case by simp
qed

lemma scan_categories_recased:
  "recased_snapshot lower snap snap' \<Longrightarrow> scan_categories lower snap cs = scan_categories lower snap' cs"
  unfolding recased_snapshot_def
proof (induction snap snap' arbitrary: cs rule: list_all2_induct)
  case Nil
  show ?case by simp
next
  case (Cons p snap p' snap')
  obtain c xs where p: "p = (c, xs)" by (cases p)
  obtain c' ys where p': "p' = (c', ys)" by (cases p')
  from Cons.hyps(1) have "c = c'" and "list_all2 (recased_item lower) xs ys"
    by (simp_all add: recased_category_def p p')
  then show ?case unfolding p p' using Cons.IH by (simp add: scan_items_recased [of lower xs ys])
qed

lemma fold_dispatch_line: "(fold_line lower) (dispatch_line outcome x c) = dispatch_line outcome (lower x) c"
  by (cases outcome) (simp_all add: dispatch_line_def)

lemma fold_alert_lines:
  "no_webhook ma = no_webhook mb \<Longrightarrow> lower x = lower y \<Longrightarrow>
   map (fold_line lower) (alert_lines hook ma x d n) = map (fold_line lower) (alert_lines hook mb y d n)"
  by (simp add: alert_lines_def fold_dispatch_line)

lemma fold_alert_posts:
  "discord_webhook ma = discord_webhook mb \<Longrightarrow> previous_stock ma = previous_stock mb \<Longrightarrow>
   lower x = lower y \<Longrightarrow>
   map (fold_post lower) (alert_posts lower ma x d) = map (fold_post lower) (alert_posts lower mb y d)"
  by (simp add: alert_posts_def no_webhook_def)

lemma check_watched_recased:
  "list_all2 (same_name lower) wl wl' \<Longrightarrow>
   discord_webhook ma = discord_webhook mb \<Longrightarrow> previous_stock ma = previous_stock mb \<Longrightarrow>
   map (fold_line lower) (console wa) = map (fold_line lower) (console wb) \<Longrightarrow>
   map (fold_post lower) (posts wa) = map (fold_post lower) (posts wb) \<Longrightarrow>
   check_watched lower hook cs wl ma wa = Inr (ma', wa') \<Longrightarrow>
   check_watched lower hook cs wl' mb wb = Inr (mb', wb') \<Longrightarrow>
   previous_stock ma' = previous_stock mb' \<and>
   map (fold_line lower) (console wa') = map (fold_line lower) (console wb') \<and>
   map (fold_post lower) (posts wa') = map (fold_post lower) (posts wb')"
proof (induction wl wl' arbitrary: ma mb wa wb rule: list_all2_induct)
  case Nil
  then show ?case by simp
next
  case (Cons x wl y wl')
  let ?d = "dict_get cs (lower x) (0, ''unknown'')"
  have xy: "lower x = lower y" using Cons.hyps(1) by (simp add: same_name_def)
  have nw: "no_webhook ma = no_webhook mb" using Cons.prems(1) by (simp add: no_webhook_def)
  have len: "length (posts wa) = length (posts wb)"
    using arg_cong [OF Cons.prems(4), of length] by simp
  let ?ma = "ma\<lparr>previous_stock := dict_set (previous_stock ma) (lower x) (fst ?d)\<rparr>"
  let ?mb = "mb\<lparr>previous_stock := dict_set (previous_stock mb) (lower x) (fst ?d)\<rparr>"
  let ?wa = "alert_step lower hook ma x ?d wa"
  let ?wb = "alert_step lower hook mb y ?d wb"
  have a: "check_watched lower hook cs wl ?ma ?wa = Inr (ma', wa')"
    using Cons.prems(5) by (simp only: check_watched_Cons)
  have b: "check_watched lower hook cs wl' ?mb ?wb = Inr (mb', wb')"
    using Cons.prems(6) by (simp only: check_watched_Cons xy [symmetric])
  have 1: "discord_webhook ?ma = discord_webhook ?mb" using Cons.prems(1) by simp
  have 2: "previous_stock ?ma = previous_stock ?mb" using Cons.prems(2) by simp
  have 3: "map (fold_line lower) (console ?wa) = map (fold_line lower) (console ?wb)"
    using Cons.prems(3) fold_alert_lines [of ma mb lower x y hook ?d "length (posts wb)", OF nw xy]
    by (simp add: alert_step_def len)
  have 4: "map (fold_post lower) (posts ?wa) = map (fold_post lower) (posts ?wb)"
    using Cons.prems(4) fold_alert_posts [of ma mb lower x y ?d, OF Cons.prems(1) Cons.prems(2) xy]
    by (simp add: alert_step_def)
  from Cons.IH [OF 1 2 3 4 a b] show ?case .
qed

subsection \<open>The countdown\<close>

lemma wait_loop_min:
  "s \<le> q \<Longrightarrow> (\<forall>k. s \<le> k \<and> k < q \<longrightarrow> running k) \<Longrightarrow> \<not> running q \<Longrightarrow>
   wait_loop running s n = min q (s + n)"
proof (induction n arbitrary: s)
  case 0
  then show ?case by simp
next
  case (Suc n)
  show ?case
  proof (cases "s = q")
    case True
    with Suc.prems show ?thesis by simp
  next
    case False
    with Suc.prems have "running s" and "Suc s \<le> q" by auto
    moreover have "\<forall>k. Suc s \<le> k \<and> k < q \<longrightarrow> running k" using Suc.prems(2) by auto
    ultimately show ?thesis using Suc.IH [of "Suc s"] Suc.prems(3) by simp
  qed
qed

subsection \<open>Evaluation of the examples\<close>

lemmas detector_eval =
  check_stock_changes_def init_def dict_set_def dict_get_def ascii_lower_def ascii_lower_char_def
  get_name_def get_quantity_def Let_def send_discord_notification_def no_webhook_def
  requests_post_def say_def quiet_def webhook_url_def hook_204_def hook_500_def hook_down_def
  seeds_stocked_def carrot_twice_def watching_three_def matches_def last_match_def
  first_match_def


lemmas display_eval =
  display_all_items_def is_watched_def init_def ascii_lower_def ascii_lower_char_def get_name_def
  get_quantity_def Let_def say_def quiet_def carrot_sold_out_def watched_records_def
  matches_def last_match_def

lemmas recased_eval =
  same_name_def recased_item_def recased_category_def recased_snapshot_def shouting_def
  strasse_def strasse_lower_def strasse_stocked_def

subsection \<open>The claims\<close>

text \<open>
  C1. In one pass of \<open>check_stock_changes\<close>, whatever \<open>previous_stock\<close> holds: the pass
  returns; the alerts it prints are, in watchlist order, one for each watchlist entry whose
  quantity in the snapshot (that of the last record with its lower-cased name, 0 when
  there is none) is above 0, and none for any other entry; and when a webhook is
  configured the POSTs it makes are one for each of the same entries, with the entry, the
  category and the quantity. So an entry triggers exactly when its quantity in this
  cycle's snapshot is above 0, and never when no record has its name.
\<close>

theorem trigger_iff_in_stock:
  "\<exists>m' w' ls ps.
     check_stock_changes lower hook m all_items_data w = Inr (m', w') \<and>
     console w' = console w @ ls \<and> posts w' = posts w @ ps \<and>
     filter is_alert ls =
       map (alert_of lower (last_match lower all_items_data))
         (in_stock lower (last_match lower all_items_data) (watchlist m)) \<and>
     (\<not> no_webhook m \<longrightarrow>
        map post_event ps =
          map (trigger_of lower m (last_match lower all_items_data))
            (in_stock lower (last_match lower all_items_data) (watchlist m))) \<and>
     (\<forall>x q c. Alert x q c \<in> set ls \<longleftrightarrow>
        x \<in> set (watchlist m) \<and> (q, c) = last_match lower all_items_data (lower x) \<and> q > 0) \<and>
     (\<forall>x. matches lower all_items_data (lower x) = [] \<longrightarrow> (\<forall>q c. Alert x q c \<notin> set ls))"
proof -
  obtain P w' where r: "check_stock_changes lower hook m all_items_data w = Inr (m\<lparr>previous_stock := P\<rparr>, w')"
    using pass_total by blast
  from pass_alerts [OF r] obtain ls where
    ls: "console w' = console w @ ls"
      "filter is_alert ls =
         map (alert_of lower (last_match lower all_items_data))
           (in_stock lower (last_match lower all_items_data) (watchlist m))"
    by blast
  from pass_posts [OF r] obtain ps where
    ps: "posts w' = posts w @ ps"
      "map post_event ps =
          (if no_webhook m then []
           else map (trigger_of lower m (last_match lower all_items_data))
                  (in_stock lower (last_match lower all_items_data) (watchlist m)))"
    by blast
  have iff: "\<forall>x q c. Alert x q c \<in> set ls \<longleftrightarrow>
        x \<in> set (watchlist m) \<and> (q, c) = last_match lower all_items_data (lower x) \<and> q > 0"
    by (simp only: alert_in_filter [of _ _ _ ls] ls(2) alert_in_stock_iff) simp
  have absent: "\<forall>x. matches lower all_items_data (lower x) = [] \<longrightarrow> (\<forall>q c. Alert x q c \<notin> set ls)"
    using iff by (auto simp: last_match_def)
  show ?thesis using r ls ps iff absent by (intro exI conjI) (assumption | simp)+
qed

theorem trigger_iff_in_stock_witness:
  "\<not> no_webhook watching_three \<and>
   last_match ascii_lower seeds_stocked ''sunflower'' = (3, ''seeds'') \<and>
   last_match ascii_lower seeds_stocked ''carrot'' = (0, ''seeds'') \<and>
   matches ascii_lower seeds_stocked (ascii_lower ''Tulip'') = [] \<and>
   check_stock_changes ascii_lower hook_204 watching_three seeds_stocked quiet =
     Inr (watching_three,
          \<lparr>console = [Alert ''Sunflower'' 3 ''seeds'', NotificationSent ''Sunflower'' ''seeds''],
           posts = [(webhook_url, Notification ''Sunflower'' ''seeds'' 3 3)]\<rparr>)"
  using trigger_iff_in_stock [of ascii_lower hook_204 watching_three seeds_stocked quiet]
  by (simp add: detector_eval)

text \<open>
  C2. Starting from \<open>__init__\<close>, after one or more passes of \<open>check_stock_changes\<close>
  every pass has returned, the keys of \<open>previous_stock\<close> are exactly the lower-cased
  watchlist names, each once, and each key holds the quantity that the last cycle's
  snapshot gives for it, which is 0 when no record of any category has that name. (With
  an empty watchlist both sets are empty.)
\<close>

theorem observation_state_keys:
  "cycles \<noteq> [] \<Longrightarrow>
   \<exists>m' w'. detector_passes lower hook (init wl url) cycles w = Inr (m', w') \<and>
     watchlist m' = wl \<and>
     set (dict_keys (previous_stock m')) = lower ` set wl \<and>
     distinct (dict_keys (previous_stock m')) \<and>
     (\<forall>k. k \<in> lower ` set wl \<longrightarrow>
        map_of (previous_stock m') k = Some (fst (last_match lower (last cycles) k)) \<and>
        (matches lower (last cycles) k = [] \<longrightarrow> map_of (previous_stock m') k = Some 0))"
proof -
  assume c: "cycles \<noteq> []"
  from passes_summary [OF c, of lower hook "init wl url" w] obtain P w' where
    r: "detector_passes lower hook (init wl url) cycles w = Inr ((init wl url)\<lparr>previous_stock := P\<rparr>, w')"
    and k: "set (dict_keys P) =
        set (dict_keys (previous_stock (init wl url))) \<union> lower ` set (watchlist (init wl url))"
    and d: "distinct (dict_keys (previous_stock (init wl url))) \<longrightarrow> distinct (dict_keys P)"
    and v: "\<forall>k. map_of P k =
        (if k \<in> lower ` set (watchlist (init wl url)) then Some (fst (last_match lower (last cycles) k))
         else map_of (previous_stock (init wl url)) k)"
    by blast
  let ?m' = "(init wl url)\<lparr>previous_stock := P\<rparr>"
  have "watchlist ?m' = wl" by (simp add: init_def)
  moreover have "set (dict_keys (previous_stock ?m')) = lower ` set wl"
    using k by (simp add: init_def dict_keys_def)
  moreover have "distinct (dict_keys (previous_stock ?m'))"
    using d by (simp add: init_def dict_keys_def)
  moreover have "\<forall>k. k \<in> lower ` set wl \<longrightarrow>
        map_of (previous_stock ?m') k = Some (fst (last_match lower (last cycles) k)) \<and>
        (matches lower (last cycles) k = [] \<longrightarrow> map_of (previous_stock ?m') k = Some 0)"
    using v by (simp add: init_def last_match_def)
  ultimately show ?thesis using r by blast
qed

theorem observation_state_keys_witness:
  "[''Sunflower''] \<noteq> [] \<and> [seeds_stocked, carrot_twice] \<noteq> [] \<and>
   ''sunflower'' \<in> ascii_lower ` set [''Sunflower''] \<and>
   matches ascii_lower (last [seeds_stocked, carrot_twice]) ''sunflower'' = [] \<and>
   detector_passes ascii_lower hook_down (init [''Sunflower''] None) [seeds_stocked, carrot_twice] quiet =
     Inr ((init [''Sunflower''] None)\<lparr>previous_stock := [(''sunflower'', 0)]\<rparr>,
          \<lparr>console = [Alert ''Sunflower'' 3 ''seeds''], posts = []\<rparr>)"
  using observation_state_keys [of "[seeds_stocked, carrot_twice]" ascii_lower hook_down "[''Sunflower'']" None quiet]
  by (simp add: detector_eval)

text \<open>
  C3, as the code has it. When records match a watched name, the quantity and the
  category that \<open>check_stock_changes\<close> uses for it are those of the last matching record
  of the scan (categories in order, items in order): the lookup in \<open>current_stock\<close> gives
  that record, \<open>previous_stock\<close> gets its quantity, and an alert for the name is printed
  exactly with its quantity and category, when that quantity is above 0. The first
  match is overwritten by every later one, as the run below shows: the first record
  holds 3 in seeds, and the alert and the stored quantity are 7 in gear.
\<close>

theorem last_match_wins:
  "x \<in> set (watchlist m) \<Longrightarrow> matches lower all_items_data (lower x) \<noteq> [] \<Longrightarrow>
   dict_get (scan_categories lower all_items_data []) (lower x) (0, ''unknown'') =
     last (matches lower all_items_data (lower x)) \<and>
   (\<exists>m' w' ls.
      check_stock_changes lower hook m all_items_data w = Inr (m', w') \<and>
      console w' = console w @ ls \<and>
      map_of (previous_stock m') (lower x) = Some (fst (last (matches lower all_items_data (lower x)))) \<and>
      (\<forall>q c. Alert x q c \<in> set ls \<longleftrightarrow>
         (q, c) = last (matches lower all_items_data (lower x)) \<and> q > 0))"
proof -
  assume x: "x \<in> set (watchlist m)" and ms: "matches lower all_items_data (lower x) \<noteq> []"
  have lm: "last_match lower all_items_data (lower x) = last (matches lower all_items_data (lower x))"
    using ms by (simp add: last_match_def)
  obtain P w' where r: "check_stock_changes lower hook m all_items_data w = Inr (m\<lparr>previous_stock := P\<rparr>, w')"
    using pass_total by blast
  from pass_alerts [OF r] obtain ls where
    ls: "console w' = console w @ ls"
      "filter is_alert ls =
         map (alert_of lower (last_match lower all_items_data))
           (in_stock lower (last_match lower all_items_data) (watchlist m))"
    by blast
  have "\<forall>q c. Alert x q c \<in> set ls \<longleftrightarrow>
         (q, c) = last (matches lower all_items_data (lower x)) \<and> q > 0"
    using x by (simp only: alert_in_filter [of _ _ _ ls] ls(2) alert_in_stock_iff lm) simp
  moreover have "map_of (previous_stock (m\<lparr>previous_stock := P\<rparr>)) (lower x) =
      Some (fst (last (matches lower all_items_data (lower x))))"
    using pass_previous_stock [OF r, of "lower x"] x lm by simp
  moreover have "dict_get (scan_categories lower all_items_data []) (lower x) (0, ''unknown'') =
     last (matches lower all_items_data (lower x))"
    by (simp add: current_stock_lookup lm)
  ultimately show ?thesis using r ls(1) by blast
qed

theorem last_match_wins_witness:
  "''Carrot'' \<in> set (watchlist (init [''Carrot''] None)) \<and>
   matches ascii_lower carrot_twice (ascii_lower ''Carrot'') = [(3, ''seeds''), (7, ''gear'')] \<and>
   dict_get (scan_categories ascii_lower carrot_twice []) (ascii_lower ''Carrot'') (0, ''unknown'') = (7, ''gear'')"
  using last_match_wins [of "''Carrot''" "init [''Carrot''] None" ascii_lower carrot_twice hook_down quiet]
  by (simp add: detector_eval)

theorem last_match_wins_counterexample:
  "first_match ascii_lower carrot_twice ''carrot'' = (3, ''seeds'') \<and>
   check_stock_changes ascii_lower hook_down (init [''Carrot''] None) carrot_twice quiet =
     Inr ((init [''Carrot''] None)\<lparr>previous_stock := [(''carrot'', 7)]\<rparr>,
          \<lparr>console = [Alert ''Carrot'' 7 ''gear''], posts = []\<rparr>)"
  by (simp add: detector_eval)





text \<open>
  C5, as the code has it. The aggregate line of \<open>display_all_items\<close>, its last line, lists
  the records of the snapshot whose name matches lower a watchlist entry without regard to
  letter case, in the order of the scan and whatever their quantity; when there is none
  the line says so. A watched record with quantity 0 is listed like one in stock, as the
  run below shows.
\<close>

theorem aggregate_lists_watched_records:
  "last (console (display_all_items lower m all_items_data w)) =
     (if watched_records lower m all_items_data = [] then NoWatchedItems
      else WatchedItemsFound (watched_records lower m all_items_data)) \<and>
   (\<forall>category items it.
      (category, items) \<in> set all_items_data \<and> it \<in> set items \<and>
      is_watched lower m (get_name it ''Unknown'') \<longrightarrow>
        get_name it ''Unknown'' @ '' ('' @ category @ '')'' \<in> set (watched_records lower m all_items_data))"
proof -
  obtain t f w1 where d: "display_categories lower m all_items_data (0, [], w) = (t, f, w1)"
    by (cases "display_categories lower m all_items_data (0, [], w)")
  have f: "f = watched_records lower m all_items_data"
    using display_categories_found [of lower m all_items_data 0 "[]" w] by (simp add: d)
  have "last (console (display_all_items lower m all_items_data w)) =
     (if watched_records lower m all_items_data = [] then NoWatchedItems
      else WatchedItemsFound (watched_records lower m all_items_data))"
    by (simp add: display_all_items_def d f Let_def last_console_say)
  moreover have "\<forall>category items it.
      (category, items) \<in> set all_items_data \<and> it \<in> set items \<and>
      is_watched lower m (get_name it ''Unknown'') \<longrightarrow>
        get_name it ''Unknown'' @ '' ('' @ category @ '')'' \<in> set (watched_records lower m all_items_data)"
    by (force simp: watched_records_def)
  ultimately show ?thesis by blast
qed

theorem aggregate_lists_watched_records_counterexample:
  "last_match ascii_lower carrot_sold_out ''carrot'' = (0, ''seeds'') \<and>
   console (display_all_items ascii_lower (init [''Carrot''] None) carrot_sold_out quiet) =
     [CategoryHeader ''seeds'' 1, ItemLine True ''carrot'' 0, OutOfStock, TotalItems 1,
      WatchedItemsFound [''carrot (seeds)'']]"
  by (simp add: display_eval)

theorem aggregate_lists_watched_records_witness:
  "(''seeds'', [\<lparr>name = Some ''carrot'', quantity = Some 0\<rparr>]) \<in> set carrot_sold_out \<and>
   is_watched ascii_lower (init [''Carrot''] None) (get_name \<lparr>name = Some ''carrot'', quantity = Some 0\<rparr> ''Unknown'') \<and>
   watched_records ascii_lower (init [''Carrot''] None) carrot_sold_out = [''carrot (seeds)''] \<and>
   last (console (display_all_items ascii_lower (init [''Carrot''] None) carrot_sold_out quiet)) =
     WatchedItemsFound [''carrot (seeds)'']"
  using aggregate_lists_watched_records [of ascii_lower "init [''Carrot''] None" carrot_sold_out quiet]
  by (simp add: display_eval)

text \<open>
  C6, as the code has it. The detector compares the \<open>lower()\<close> forms of the two names.
  Take two watchlists whose entries have, place for place, the same \<open>lower()\<close> form, and
  two snapshots whose records have, place for place, the same quantity and names of the
  same \<open>lower()\<close> form. A pass of \<open>check_stock_changes\<close> on the one and on the other,
  from the same state, returns the same \<open>previous_stock\<close>, and prints the same lines and
  makes the same POSTs, entry for entry, with the same categories, quantities, previous
  quantities and dispatch outcomes; the alert and the POST repeat the watchlist entry as
  it is spelled. When the watchlist is the same, the output is the same altogether. A
  change of letter case that changes the \<open>lower()\<close> form is not covered, and breaks the
  match: the run below watches a name with a sharp s, which triggers, and then the same
  name in capitals, which does not.
\<close>

theorem matching_ignores_case:
  "list_all2 (same_name lower) wl wl' \<Longrightarrow> recased_snapshot lower all_items_data all_items_data' \<Longrightarrow>
   \<exists>P w1 w2.
     check_stock_changes lower hook (m\<lparr>watchlist := wl\<rparr>) all_items_data w =
       Inr (m\<lparr>watchlist := wl, previous_stock := P\<rparr>, w1) \<and>
     check_stock_changes lower hook (m\<lparr>watchlist := wl'\<rparr>) all_items_data' w =
       Inr (m\<lparr>watchlist := wl', previous_stock := P\<rparr>, w2) \<and>
     map (fold_line lower) (console w1) = map (fold_line lower) (console w2) \<and>
     map (fold_post lower) (posts w1) = map (fold_post lower) (posts w2) \<and>
     (wl = wl' \<longrightarrow> w1 = w2)"
proof -
  assume wl: "list_all2 (same_name lower) wl wl'" and sn: "recased_snapshot lower all_items_data all_items_data'"
  have cs: "scan_categories lower all_items_data' [] = scan_categories lower all_items_data []"
    using scan_categories_recased [OF sn] by simp
  obtain P w1 where
    r1: "check_stock_changes lower hook (m\<lparr>watchlist := wl\<rparr>) all_items_data w =
       Inr (m\<lparr>watchlist := wl, previous_stock := P\<rparr>, w1)"
    using pass_total [of lower hook "m\<lparr>watchlist := wl\<rparr>" all_items_data w] by auto
  obtain P' w2 where
    r2: "check_stock_changes lower hook (m\<lparr>watchlist := wl'\<rparr>) all_items_data' w =
       Inr (m\<lparr>watchlist := wl', previous_stock := P'\<rparr>, w2)"
    using pass_total [of lower hook "m\<lparr>watchlist := wl'\<rparr>" all_items_data' w] by auto
  have c1: "check_watched lower hook (scan_categories lower all_items_data []) wl (m\<lparr>watchlist := wl\<rparr>) w =
       Inr (m\<lparr>watchlist := wl, previous_stock := P\<rparr>, w1)"
    using r1 by (simp add: check_stock_changes_eq)
  have c2: "check_watched lower hook (scan_categories lower all_items_data []) wl' (m\<lparr>watchlist := wl'\<rparr>) w =
       Inr (m\<lparr>watchlist := wl', previous_stock := P'\<rparr>, w2)"
    using r2 by (simp add: check_stock_changes_eq cs)
  from check_watched_recased [OF wl _ _ _ _ c1 c2]
  have rel: "P = P'" "map (fold_line lower) (console w1) = map (fold_line lower) (console w2)"
    "map (fold_post lower) (posts w1) = map (fold_post lower) (posts w2)"
    by simp_all
  have "wl = wl' \<longrightarrow> w1 = w2" using c1 c2 by auto
  with r1 r2 rel show ?thesis by blast
qed

theorem matching_ignores_case_witness:
  "list_all2 (same_name ascii_lower) [''Carrot'', ''Sunflower''] [''CARROT'', ''sunflower''] \<and>
   recased_snapshot ascii_lower seeds_stocked shouting \<and>
   check_stock_changes ascii_lower hook_204 ((init [] (Some webhook_url))\<lparr>watchlist := [''Carrot'', ''Sunflower'']\<rparr>)
       seeds_stocked quiet =
     Inr ((init [] (Some webhook_url))
            \<lparr>watchlist := [''Carrot'', ''Sunflower''],
              previous_stock := [(''carrot'', 0), (''sunflower'', 3)]\<rparr>,
          \<lparr>console = [Alert ''Sunflower'' 3 ''seeds'', NotificationSent ''Sunflower'' ''seeds''],
           posts = [(webhook_url, Notification ''Sunflower'' ''seeds'' 3 0)]\<rparr>) \<and>
   check_stock_changes ascii_lower hook_204 ((init [] (Some webhook_url))\<lparr>watchlist := [''CARROT'', ''sunflower'']\<rparr>)
       shouting quiet =
     Inr ((init [] (Some webhook_url))
            \<lparr>watchlist := [''CARROT'', ''sunflower''],
              previous_stock := [(''carrot'', 0), (''sunflower'', 3)]\<rparr>,
          \<lparr>console = [Alert ''sunflower'' 3 ''seeds'', NotificationSent ''sunflower'' ''seeds''],
           posts = [(webhook_url, Notification ''sunflower'' ''seeds'' 3 0)]\<rparr>) \<and>
   list_all2 (same_name ascii_lower) [''Carrot'', ''Sunflower''] [''Carrot'', ''Sunflower''] \<and>
   check_stock_changes ascii_lower hook_204 ((init [] (Some webhook_url))\<lparr>watchlist := [''Carrot'', ''Sunflower'']\<rparr>)
       shouting quiet =
     Inr ((init [] (Some webhook_url))
            \<lparr>watchlist := [''Carrot'', ''Sunflower''],
              previous_stock := [(''carrot'', 0), (''sunflower'', 3)]\<rparr>,
          \<lparr>console = [Alert ''Sunflower'' 3 ''seeds'', NotificationSent ''Sunflower'' ''seeds''],
           posts = [(webhook_url, Notification ''Sunflower'' ''seeds'' 3 0)]\<rparr>)"
  using matching_ignores_case [of ascii_lower "[''Carrot'', ''Sunflower'']" "[''CARROT'', ''sunflower'']"
      seeds_stocked shouting hook_204 "init [] (Some webhook_url)" quiet]
    matching_ignores_case [of ascii_lower "[''Carrot'', ''Sunflower'']" "[''Carrot'', ''Sunflower'']"
      seeds_stocked shouting hook_204 "init [] (Some webhook_url)" quiet]
  by (simp add: detector_eval recased_eval)

theorem matching_ignores_case_counterexample:
  "ascii_lower strasse = strasse_lower \<and>
   ascii_lower ''STRASSE'' = ''strasse'' \<and>
   check_stock_changes ascii_lower hook_down (init [strasse] None) strasse_stocked quiet =
     Inr ((init [strasse] None)\<lparr>previous_stock := [(strasse_lower, 2)]\<rparr>,
          \<lparr>console = [Alert strasse 2 ''seeds''], posts = []\<rparr>) \<and>
   check_stock_changes ascii_lower hook_down (init [''STRASSE''] None) strasse_stocked quiet =
     Inr ((init [''STRASSE''] None)\<lparr>previous_stock := [(''strasse'', 0)]\<rparr>,
          \<lparr>console = [], posts = []\<rparr>)"
  by (simp add: detector_eval recased_eval)

text \<open>
  C7. With no webhook configured (\<open>None\<close> or the empty string),
  \<open>send_discord_notification\<close> returns the world as it found it, and a pass of
  \<open>check_stock_changes\<close> makes no POST and prints exactly the alerts of the entries in
  stock, in watchlist order, whatever the endpoint would have answered.
\<close>

theorem no_webhook_no_dispatch:
  "no_webhook m \<Longrightarrow>
   send_discord_notification hook m item_name category qty previous_quantity w = Inr (m, w) \<and>
   (\<exists>m'. check_stock_changes lower hook m all_items_data w =
      Inr (m', w\<lparr>console := console w @
                   map (alert_of lower (last_match lower all_items_data))
                     (in_stock lower (last_match lower all_items_data) (watchlist m))\<rparr>))"
proof -
  assume n: "no_webhook m"
  obtain P w' where r: "check_stock_changes lower hook m all_items_data w = Inr (m\<lparr>previous_stock := P\<rparr>, w')"
    using pass_total by blast
  from pass_no_webhook [OF r n] r
  have "\<exists>m'. check_stock_changes lower hook m all_items_data w =
      Inr (m', w\<lparr>console := console w @
                   map (alert_of lower (last_match lower all_items_data))
                     (in_stock lower (last_match lower all_items_data) (watchlist m))\<rparr>)"
    by blast
  moreover have "send_discord_notification hook m item_name category qty previous_quantity w = Inr (m, w)"
    using n by (simp add: send_discord_notification_def)
  ultimately show ?thesis by blast
qed

theorem no_webhook_no_dispatch_witness:
  "no_webhook (init [''Carrot''] None) \<and>
   send_discord_notification hook_204 (init [''Carrot''] None) ''Carrot'' ''gear'' 7 0 quiet =
     Inr (init [''Carrot''] None, quiet) \<and>
   check_stock_changes ascii_lower hook_204 (init [''Carrot''] None) carrot_twice quiet =
     Inr ((init [''Carrot''] None)\<lparr>previous_stock := [(''carrot'', 7)]\<rparr>,
          \<lparr>console = [Alert ''Carrot'' 7 ''gear''], posts = []\<rparr>)"
  using no_webhook_no_dispatch [of "init [''Carrot''] None" hook_204 "''Carrot''" "''gear''" 7 0 quiet
      ascii_lower carrot_twice]
  by (simp add: detector_eval)

text \<open>
  C8. With a webhook configured, \<open>send_discord_notification\<close> always returns, with the
  monitor unchanged; it makes exactly one POST and prints exactly one line, which is the
  success line exactly when the endpoint answered with status 204, the failure line with
  the status for any other status, and the error line when the POST raised. A pass of
  \<open>check_stock_changes\<close> returns as well, whatever the endpoint does, having made one POST
  for each entry in stock and no more.
\<close>

theorem dispatch_outcome_logged_once:
  "\<not> no_webhook m \<Longrightarrow>
   (\<exists>l. send_discord_notification hook m item_name category qty previous_quantity w =
          Inr (m, w\<lparr>console := console w @ [l],
                    posts := posts w @ [(the (discord_webhook m),
                      Notification item_name category qty previous_quantity)]\<rparr>) \<and>
        (l = NotificationSent item_name category \<longleftrightarrow>
           (\<exists>r. hook (length (posts w)) = Inr r \<and> status_code r = 204)) \<and>
        (\<forall>r. hook (length (posts w)) = Inr r \<and> status_code r \<noteq> 204 \<longrightarrow>
           l = NotificationFailed (status_code r)) \<and>
        (\<forall>e. hook (length (posts w)) = Inl e \<longrightarrow> l = NotificationError e)) \<and>
   (\<exists>m' w'. check_stock_changes lower hook m all_items_data w = Inr (m', w') \<and>
        length (posts w') =
          length (posts w) + length (in_stock lower (last_match lower all_items_data) (watchlist m)))"
proof -
  assume n: "\<not> no_webhook m"
  let ?l = "dispatch_line (hook (length (posts w))) item_name category"
  have "send_discord_notification hook m item_name category qty previous_quantity w =
          Inr (m, w\<lparr>console := console w @ [?l],
                    posts := posts w @ [(the (discord_webhook m),
                      Notification item_name category qty previous_quantity)]\<rparr>)"
    using n by (simp add: send_discord_notification_eq)
  moreover have "?l = NotificationSent item_name category \<longleftrightarrow>
           (\<exists>r. hook (length (posts w)) = Inr r \<and> status_code r = 204)"
    by (cases "hook (length (posts w))") (simp_all add: dispatch_line_def)
  moreover have "\<forall>r. hook (length (posts w)) = Inr r \<and> status_code r \<noteq> 204 \<longrightarrow>
           ?l = NotificationFailed (status_code r)"
    by (simp add: dispatch_line_def)
  moreover have "\<forall>e. hook (length (posts w)) = Inl e \<longrightarrow> ?l = NotificationError e"
    by (simp add: dispatch_line_def)
  ultimately have first: "\<exists>l. send_discord_notification hook m item_name category qty previous_quantity w =
          Inr (m, w\<lparr>console := console w @ [l],
                    posts := posts w @ [(the (discord_webhook m),
                      Notification item_name category qty previous_quantity)]\<rparr>) \<and>
        (l = NotificationSent item_name category \<longleftrightarrow>
           (\<exists>r. hook (length (posts w)) = Inr r \<and> status_code r = 204)) \<and>
        (\<forall>r. hook (length (posts w)) = Inr r \<and> status_code r \<noteq> 204 \<longrightarrow>
           l = NotificationFailed (status_code r)) \<and>
        (\<forall>e. hook (length (posts w)) = Inl e \<longrightarrow> l = NotificationError e)"
    by blast
  obtain P w' where r: "check_stock_changes lower hook m all_items_data w = Inr (m\<lparr>previous_stock := P\<rparr>, w')"
    using pass_total by blast
  from pass_posts [OF r] n obtain ps where
    ps: "posts w' = posts w @ ps"
      "map post_event ps = map (trigger_of lower m (last_match lower all_items_data))
         (in_stock lower (last_match lower all_items_data) (watchlist m))"
    by auto
  have "length ps = length (in_stock lower (last_match lower all_items_data) (watchlist m))"
    using arg_cong [OF ps(2), of length] by simp
  then have "length (posts w') =
          length (posts w) + length (in_stock lower (last_match lower all_items_data) (watchlist m))"
    using ps(1) by simp
  with r first show ?thesis by blast
qed

theorem dispatch_outcome_logged_once_witness:
  "\<not> no_webhook (init [''Carrot''] (Some webhook_url)) \<and>
   send_discord_notification hook_500 (init [''Carrot''] (Some webhook_url)) ''Carrot'' ''gear'' 7 0 quiet =
     Inr (init [''Carrot''] (Some webhook_url),
          \<lparr>console = [NotificationFailed 500],
           posts = [(webhook_url, Notification ''Carrot'' ''gear'' 7 0)]\<rparr>) \<and>
   send_discord_notification hook_down (init [''Carrot''] (Some webhook_url)) ''Carrot'' ''gear'' 7 0 quiet =
     Inr (init [''Carrot''] (Some webhook_url),
          \<lparr>console = [NotificationError RequestException],
           posts = [(webhook_url, Notification ''Carrot'' ''gear'' 7 0)]\<rparr>) \<and>
   send_discord_notification hook_204 (init [''Carrot''] (Some webhook_url)) ''Carrot'' ''gear'' 7 0 quiet =
     Inr (init [''Carrot''] (Some webhook_url),
          \<lparr>console = [NotificationSent ''Carrot'' ''gear''],
           posts = [(webhook_url, Notification ''Carrot'' ''gear'' 7 0)]\<rparr>) \<and>
   check_stock_changes ascii_lower hook_down (init [''Carrot''] (Some webhook_url)) carrot_twice quiet =
     Inr ((init [''Carrot''] (Some webhook_url))\<lparr>previous_stock := [(''carrot'', 7)]\<rparr>,
          \<lparr>console = [Alert ''Carrot'' 7 ''gear'', NotificationError RequestException],
           posts = [(webhook_url, Notification ''Carrot'' ''gear'' 7 0)]\<rparr>)"
  using dispatch_outcome_logged_once [of "init [''Carrot''] (Some webhook_url)" hook_500
      "''Carrot''" "''gear''" 7 0 quiet ascii_lower carrot_twice]
  by (simp add: detector_eval)

text \<open>
  C9. The countdown makes one \<open>time.sleep(1)\<close> for each round and reads the flag before
  each of them. If the flag reads true at the checks before the \<open>q\<close>-th and false at the
  \<open>q\<close>-th, the loop is left at that check, after \<open>q\<close> sleeps when \<open>q\<close> is below
  \<open>remaining\<close>: a quit that arrives during a sleep ends the wait when that sleep is
  over, not after the remaining ones. A loop entered with the flag already false makes
  no sleep at all.
\<close>

theorem wait_leaves_at_first_cleared_check:
  "(\<forall>k. k < q \<longrightarrow> running k) \<Longrightarrow> \<not> running q \<Longrightarrow>
   wait_loop running 0 remaining = min q remaining \<and>
   wait_loop running q remaining = q"
proof -
  assume a: "\<forall>k. k < q \<longrightarrow> running k" and b: "\<not> running q"
  have "wait_loop running 0 remaining = min q (0 + remaining)"
    using a b by (intro wait_loop_min) auto
  moreover have "wait_loop running q remaining = min q (q + remaining)"
    using b by (intro wait_loop_min) auto
  ultimately show ?thesis by simp
qed

theorem wait_leaves_at_first_cleared_check_witness:
  "quit_during_first_sleep 0 \<and> \<not> quit_during_first_sleep 1 \<and>
   wait_loop quit_during_first_sleep 0 45 = 1"
  using wait_leaves_at_first_cleared_check [of 1 quit_during_first_sleep 45]
  by (simp add: quit_during_first_sleep_def)


text \<open>
  C10. With an empty watchlist \<open>check_stock_changes\<close> returns at once, for every
  snapshot and every endpoint: nothing is printed, nothing is posted, and the monitor,
  \<open>previous_stock\<close> included, is the one it was called with.
\<close>

theorem empty_watchlist_returns_unchanged:
  "watchlist m = [] \<Longrightarrow> check_stock_changes lower hook m all_items_data w = Inr (m, w)"
  by (simp add: check_stock_changes_def)

theorem empty_watchlist_returns_unchanged_witness:
  "watchlist (init [] (Some ''https://discord.com/api/webhooks/1'')) = [] \<and>
   check_stock_changes ascii_lower (\<lambda>n. Inl RequestException) (init [] (Some ''https://discord.com/api/webhooks/1''))
       [(''seeds'', [\<lparr>name = Some ''Carrot'', quantity = Some 3\<rparr>])]
       \<lparr>console = [], posts = []\<rparr> =
     Inr (init [] (Some ''https://discord.com/api/webhooks/1''), \<lparr>console = [], posts = []\<rparr>)"
  using empty_watchlist_returns_unchanged
    [of "init [] (Some ''https://discord.com/api/webhooks/1'')" ascii_lower
        "\<lambda>n. Inl RequestException"
        "[(''seeds'', [\<lparr>name = Some ''Carrot'', quantity = Some 3\<rparr>])]"
        "\<lparr>console = [], posts = []\<rparr>"]
  by (simp add: init_def)

end
